theory Spec2Isabelle
  imports Complex_Main
begin

section \<open>Values and records of the similarity stage\<close>

text \<open>
  The cells of a pandas row are Python objects. The model keeps the kinds the two scripts
  can meet: a string, an integer, a finite float, the float not-a-number, and \<open>None\<close>.
  Floats are modelled by exact reals, so \<open>(m / l) * 100\<close> is the exact quotient.
\<close>

datatype pyval = PStr string | PInt int | PFloat real | PNaN | PNone

text \<open>A row of the input frame, as \<open>to_dict('records')\<close> hands it to the per-pair function.\<close>

record row =
  hTF1 :: pyval
  Sequence_hTF1 :: pyval
  hTF2 :: pyval
  Sequence_hTF2 :: pyval
  similarity :: pyval

datatype error = AlignmentError | RuntimeError | ValueError

text \<open>
  What \<open>parasail.nw_stats\<close> hands back: an object with the attributes \<open>length\<close> and
  \<open>matches\<close>. The source tests the object for truth and \<open>length\<close> for \<open>None\<close>, so
  both are optional here.
\<close>

record alignment_result =
  length_stat :: "int option"
  matches :: int

text \<open>
  The alignment library is not part of the repository: the per-pair function takes it as
  a parameter. A call either raises (\<open>Inl\<close>) or returns an object or \<open>None\<close>. The
  scoring matrix \<open>parasail.blosum62\<close> is a parameter of type \<open>'m\<close>.
\<close>

type_synonym 'm kernel =
  "string \<Rightarrow> string \<Rightarrow> int \<Rightarrow> int \<Rightarrow> 'm \<Rightarrow> error + alignment_result option"

definition GAP_OPEN_PENALTY :: int where
  "GAP_OPEN_PENALTY = 10"

definition GAP_EXTEND_PENALTY :: int where
  "GAP_EXTEND_PENALTY = 1"

section \<open>The per-pair function\<close>

text \<open>Python's \<open>isinstance(v, str)\<close>.\<close>

fun isinstance_str :: "pyval \<Rightarrow> bool" where
  "isinstance_str (PStr s) = True"
| "isinstance_str v = False"

text \<open>Python's truth value of an object, as \<open>not v\<close> reads it.\<close>

fun truthy :: "pyval \<Rightarrow> bool" where
  "truthy (PStr s) = (s \<noteq> [])"
| "truthy (PInt i) = (i \<noteq> 0)"
| "truthy (PFloat x) = (x \<noteq> 0)"
| "truthy PNaN = True"
| "truthy PNone = False"

fun the_str :: "pyval \<Rightarrow> string" where
  "the_str (PStr s) = s"
| "the_str v = []"

text \<open>
  Lines 52 to 56 of the source: the percent identity is \<open>(matches / length) * 100\<close> when
  the result object is there and its length is a positive number, and \<open>0.0\<close> otherwise.
\<close>

definition percent_of :: "alignment_result option \<Rightarrow> pyval" where
  "percent_of alignment_result =
     (case alignment_result of
        None \<Rightarrow> PFloat 0
      | Some res \<Rightarrow>
          (case length_stat res of
             None \<Rightarrow> PFloat 0
           | Some l \<Rightarrow>
               if l > 0 then PFloat ((real_of_int (matches res) / real_of_int l) * 100)
               else PFloat 0))"

text \<open>
  \<open>calculate_similarity_for_pair\<close> returns a Python tuple, modelled as the list of its
  components: the two early returns give three components, the last return gives six.
  The second component of the model's result is the list of calls made to the alignment
  library, so that "the kernel is not invoked" can be stated. The message printed to
  the error stream when the library raises is left out.
\<close>

definition calculate_similarity_for_pair ::
  "'m kernel \<Rightarrow> 'm \<Rightarrow> 'z row_scheme \<Rightarrow> pyval list \<times> (string \<times> string) list" where
  "calculate_similarity_for_pair nw_stats SCORING_MATRIX r =
     (let h1 = hTF1 r; h2 = hTF2 r; seq1 = Sequence_hTF1 r; seq2 = Sequence_hTF2 r;
          sim = similarity r
      in if seq1 = PStr ''NOT_FOUND'' \<or> seq2 = PStr ''NOT_FOUND'' then ([h1, h2, PNaN], [])
         else if \<not> isinstance_str seq1 \<or> \<not> isinstance_str seq2 \<or> \<not> truthy seq1 \<or> \<not> truthy seq2
         then ([h1, h2, PNaN], [])
         else
           (let percent_identity =
                  (case nw_stats (the_str seq1) (the_str seq2)
                          GAP_OPEN_PENALTY GAP_EXTEND_PENALTY SCORING_MATRIX of
                     Inl e \<Rightarrow> PNaN
                   | Inr alignment_result \<Rightarrow> percent_of alignment_result)
            in ([h1, h2, seq1, seq2, percent_identity, sim], [(the_str seq1, the_str seq2)])))"

text \<open>The validity filter of the source in one predicate: both sequences are strings,
  neither is the sentinel, neither is empty.\<close>

definition valid_seq :: "pyval \<Rightarrow> bool" where
  "valid_seq v = (v \<noteq> PStr ''NOT_FOUND'' \<and> isinstance_str v \<and> truthy v)"

definition passes_filter :: "'z row_scheme \<Rightarrow> bool" where
  "passes_filter r = (valid_seq (Sequence_hTF1 r) \<and> valid_seq (Sequence_hTF2 r))"

section \<open>The worker pool\<close>

text \<open>
  Modelled from the spec: the worker pool (\<open>multiprocessing.Pool\<close> is not part of the
  repository). The record indices are partitioned across the \<open>N\<close> workers, each worker
  getting a disjoint subset: index \<open>i\<close> goes to worker \<open>assign i mod N\<close>.
\<close>

definition partition_tasks :: "nat \<Rightarrow> (nat \<Rightarrow> nat) \<Rightarrow> nat \<Rightarrow> nat list list" where
  "partition_tasks N assign n =
     map (\<lambda>w. filter (\<lambda>i. assign i mod N = w) [0..<n]) [0..<N]"

text \<open>
  Modelled from the spec: one completion event. Worker \<open>w\<close> finishes the next item of its
  queue and writes the result into the index-addressed results buffer; an event for a
  worker that does not exist or has nothing left changes nothing.
\<close>

definition complete_next ::
  "('a \<Rightarrow> 'b) \<Rightarrow> 'a list \<Rightarrow> nat \<Rightarrow> nat list list \<times> 'b option list \<Rightarrow>
   nat list list \<times> 'b option list" where
  "complete_next f xs w st =
     (case st of (qs, buf) \<Rightarrow>
        if w < length qs then
          (case qs ! w of
             [] \<Rightarrow> (qs, buf)
           | i # rest \<Rightarrow> (qs[w := rest], buf[i := Some (f (xs ! i))]))
        else (qs, buf))"

text \<open>
  Modelled from the spec: the final join. The orchestrator waits for all dispatched work,
  so whatever is still queued when the schedule ends is completed as well.
\<close>

definition join_all ::
  "('a \<Rightarrow> 'b) \<Rightarrow> 'a list \<Rightarrow> nat list list \<times> 'b option list \<Rightarrow> 'b option list" where
  "join_all f xs st =
     (case st of (qs, buf) \<Rightarrow> fold (\<lambda>i b. b[i := Some (f (xs ! i))]) (concat qs) buf)"

text \<open>
  Modelled from the spec: collecting the results buffer in index order. A slot that was
  never written would leave the collection without a result.
\<close>

definition collect :: "'b option list \<Rightarrow> 'b list option" where
  "collect buf = (if list_all (\<lambda>v. v \<noteq> None) buf then Some (map the buf) else None)"

text \<open>
  Modelled from the spec: \<open>pool.imap\<close> with \<open>N\<close> workers. The list \<open>sched\<close> names, event
  by event, the worker that completes its next item: it stands for the dispatch and
  completion order, which the program does not control.
\<close>

definition Pool_imap ::
  "nat \<Rightarrow> (nat \<Rightarrow> nat) \<Rightarrow> nat list \<Rightarrow> ('a \<Rightarrow> 'b) \<Rightarrow> 'a list \<Rightarrow> 'b list option" where
  "Pool_imap N assign sched f xs =
     collect (join_all f xs
       (fold (complete_next f xs) sched
          (partition_tasks N assign (length xs), replicate (length xs) None)))"

section \<open>The output frame and the batch\<close>

definition columns :: "string list" where
  "columns = [''hTF1'', ''hTF2'', ''Sequence_hTF1'', ''Sequence_hTF2'',
              ''Similarity_PercentIdentity'', ''Similarity'']"

text \<open>
  The cell pandas puts where a shorter tuple has no value. The two similarity columns hold
  numbers, so they are float columns and the missing cell is not-a-number there; in the
  other columns it stays \<open>None\<close>.
\<close>

definition missing_cell :: "nat \<Rightarrow> pyval" where
  "missing_cell j =
     (if j < length columns \<and>
         (columns ! j = ''Similarity_PercentIdentity'' \<or> columns ! j = ''Similarity'')
      then PNaN else PNone)"

definition pad_row :: "nat \<Rightarrow> pyval list \<Rightarrow> pyval list" where
  "pad_row k t = t @ map missing_cell [length t..<k]"

primrec max_len :: "pyval list list \<Rightarrow> nat" where
  "max_len [] = 0"
| "max_len (t # ts) = max (length t) (max_len ts)"

text \<open>
  \<open>pd.DataFrame(results, columns=...)\<close> on a list of tuples, as pandas builds it: the
  tuples are laid out in a table as wide as the longest of them, a shorter tuple being
  filled up with missing cells; the construction raises when that width is not the number
  of column names. An empty list gives an empty frame.
\<close>

definition DataFrame :: "pyval list list \<Rightarrow> string list \<Rightarrow> error + pyval list list" where
  "DataFrame results cols =
     (if results = [] then Inr []
      else if max_len results = length cols then Inr (map (pad_row (max_len results)) results)
      else Inl ValueError)"

text \<open>
  Lines 128 to 139 of \<open>main\<close>: the pool is created with \<open>num_processes\<close> workers (the
  constructor raises \<open>ValueError\<close> below one), the per-pair function is mapped over the
  records, and the output frame is built from the collected tuples. Reading and writing
  the CSV files is outside the model.
\<close>

definition main ::
  "'m kernel \<Rightarrow> 'm \<Rightarrow> int \<Rightarrow> (nat \<Rightarrow> nat) \<Rightarrow> nat list \<Rightarrow> 'z row_scheme list \<Rightarrow>
   error + pyval list list" where
  "main nw_stats SCORING_MATRIX num_processes assign sched data_for_pool =
     (if num_processes < 1 then Inl ValueError
      else
        (case Pool_imap (nat num_processes) assign sched
                (\<lambda>r. fst (calculate_similarity_for_pair nw_stats SCORING_MATRIX r))
                data_for_pool of
           None \<Rightarrow> Inl RuntimeError
         | Some results \<Rightarrow> DataFrame results columns))"

section \<open>The alignment kernel\<close>

text \<open>
  Modelled from the spec: the kinds of alignment column (the three recurrences of the
  dynamic program): a substitution, a gap in sequence A, a gap in sequence B.
\<close>

datatype move = Diag | GapInA | GapInB

text \<open>
  Modelled from the spec: the scoring scheme, a substitution matrix with a gap-open and a
  gap-extend penalty (the matrix and the aligner of the alignment library are not part of
  the repository).
\<close>

record scheme =
  matrix :: "char \<Rightarrow> char \<Rightarrow> int"
  gap_open :: int
  gap_extend :: int

text \<open>Modelled from the spec: the statistics of an alignment, as (score, matches, length).\<close>

type_synonym stats = "int \<times> nat \<times> nat"

text \<open>
  Modelled from the spec: the affine gap penalty. The first column of a gap costs gap-open,
  each further contiguous column of the same gap costs gap-extend.
\<close>

definition gap_cost :: "scheme \<Rightarrow> move \<Rightarrow> move \<Rightarrow> int" where
  "gap_cost sch prev m = (if prev = m then gap_extend sch else gap_open sch)"

text \<open>Modelled from the spec: one more column, with its score and whether it is an exact match.\<close>

definition add_col :: "int \<Rightarrow> nat \<Rightarrow> stats \<Rightarrow> stats" where
  "add_col sc mt st = (case st of (s, m, l) \<Rightarrow> (s + sc, m + mt, l + 1))"

text \<open>Modelled from the spec: the tie-break. A later candidate replaces an earlier one only
  with a strictly higher score.\<close>

definition better :: "stats \<Rightarrow> stats \<Rightarrow> stats" where
  "better a b = (if fst a < fst b then b else a)"

text \<open>
  Modelled from the spec: the Needleman-Wunsch recurrence with affine gaps, on the
  remaining suffixes of the two sequences and the kind of the previous column. The
  diagonal move is preferred over a gap; the flag \<open>tb\<close> says which gap is tried first
  among the two (\<open>True\<close>: a gap in A before a gap in B).
\<close>

fun nw :: "bool \<Rightarrow> scheme \<Rightarrow> move \<Rightarrow> string \<Rightarrow> string \<Rightarrow> stats" where
  "nw tb sch p [] [] = (0, 0, 0)"
| "nw tb sch p (x # xs) [] = add_col (- gap_cost sch p GapInB) 0 (nw tb sch GapInB xs [])"
| "nw tb sch p [] (y # ys) = add_col (- gap_cost sch p GapInA) 0 (nw tb sch GapInA [] ys)"
| "nw tb sch p (x # xs) (y # ys) =
     (let d = add_col (matrix sch x y) (if x = y then 1 else 0) (nw tb sch Diag xs ys);
          ga = add_col (- gap_cost sch p GapInA) 0 (nw tb sch GapInA (x # xs) ys);
          gb = add_col (- gap_cost sch p GapInB) 0 (nw tb sch GapInB xs (y # ys))
      in if tb then better (better d ga) gb else better (better d gb) ga)"

text \<open>Modelled from the spec: percent identity is 100 times matches over length, and
  not-a-number when the length is 0.\<close>

definition percent_identity :: "stats \<Rightarrow> pyval" where
  "percent_identity st =
     (case st of (s, m, l) \<Rightarrow> if l = 0 then PNaN else PFloat (100 * real m / real l))"

text \<open>Modelled from the spec: \<open>Align\<close> fails with an alignment error when either sequence
  is empty, and returns the statistics of the optimal global alignment otherwise.\<close>

definition Align :: "bool \<Rightarrow> scheme \<Rightarrow> string \<Rightarrow> string \<Rightarrow> error + stats" where
  "Align tb sch A B =
     (if A = [] \<or> B = [] then Inl AlignmentError else Inr (nw tb sch Diag A B))"

text \<open>Modelled from the spec: a matrix favours identity when no substitution scores above
  the mean of the two self-scores and no self-score is as low as two gap columns.\<close>

definition identity_favoring :: "scheme \<Rightarrow> bool" where
  "identity_favoring sch =
     ((\<forall>a b. 2 * matrix sch a b \<le> matrix sch a a + matrix sch b b) \<and>
      (\<forall>a. - 2 * gap_extend sch < matrix sch a a) \<and>
      gap_extend sch \<le> gap_open sch)"

text \<open>Modelled from the spec: the kernel above in the shape of the library call of the
  source, so that the per-pair function can be run on it.\<close>

definition spec_kernel :: "bool \<Rightarrow> (char \<Rightarrow> char \<Rightarrow> int) kernel" where
  "spec_kernel tb s1 s2 go ge m =
     (case Align tb \<lparr>matrix = m, gap_open = go, gap_extend = ge\<rparr> s1 s2 of
        Inl e \<Rightarrow> Inl e
      | Inr (s, mt, l) \<Rightarrow> Inr (Some \<lparr>length_stat = Some (int l), matches = int mt\<rparr>))"

section \<open>The sequence-query stage\<close>

text \<open>
  What the HTTP request of \<open>fetch_sequence_from_protein_name\<close> can give: a request
  exception (connection failure, bad status), or the list under \<open>results\<close> of the parsed
  answer, each entry with its sequence value or without one (the \<open>KeyError\<close> of the
  source). The network is a parameter that takes and returns the state of the world.
\<close>

datatype response = RequestException | Results "string option list"

type_synonym 'w http = "string \<Rightarrow> 'w \<Rightarrow> response \<times> 'w"

text \<open>
  \<open>fetch_sequence_from_protein_name\<close>: the sequence of the first result, and \<open>None\<close> when
  the request fails, when there is no result, or when the first result has no sequence.
\<close>

definition fetch_sequence_from_protein_name ::
  "'w http \<Rightarrow> string \<Rightarrow> 'w \<Rightarrow> string option \<times> 'w" where
  "fetch_sequence_from_protein_name requests_get protein_name w =
     (case requests_get (protein_name @ '' AND (taxonomy_id:9606) AND (reviewed:true)'') w of
        (RequestException, w') \<Rightarrow> (None, w')
      | (Results [], w') \<Rightarrow> (None, w')
      | (Results (first # others), w') \<Rightarrow> (first, w'))"

text \<open>A row of the input frame of the query script.\<close>

record pair_row =
  in_hTF1 :: string
  in_hTF2 :: string
  in_similarity :: pyval

text \<open>
  The loop of lines 102 to 108: the dictionary \<open>sequence_map\<close>, the list of the fetches
  made so far (name and result, kept to count them), and the world. A name already in
  the dictionary is not fetched again. The pause between requests is left out.
\<close>

type_synonym 'w fetch_state =
  "(string \<rightharpoonup> string option) \<times> (string \<times> string option) list \<times> 'w"

fun fetch_all :: "'w http \<Rightarrow> string list \<Rightarrow> 'w fetch_state \<Rightarrow> 'w fetch_state" where
  "fetch_all requests_get [] st = st"
| "fetch_all requests_get (htf_name # rest) (sequence_map, calls, w) =
     (if sequence_map htf_name = None then
        (case fetch_sequence_from_protein_name requests_get htf_name w of
           (sequence, w') \<Rightarrow>
             fetch_all requests_get rest
               (sequence_map(htf_name \<mapsto> sequence), calls @ [(htf_name, sequence)], w'))
      else fetch_all requests_get rest (sequence_map, calls, w))"

text \<open>
  \<open>.map(sequence_map).fillna("NOT_FOUND")\<close> on one name: a name that is not a key and a
  name stored with \<open>None\<close> both give the sentinel.
\<close>

definition map_fillna :: "(string \<rightharpoonup> string option) \<Rightarrow> string \<Rightarrow> pyval" where
  "map_fillna sequence_map name =
     (case sequence_map name of
        None \<Rightarrow> PStr ''NOT_FOUND''
      | Some None \<Rightarrow> PStr ''NOT_FOUND''
      | Some (Some s) \<Rightarrow> PStr s)"

text \<open>
  \<open>main\<close> of the query script, lines 95 to 126. The list \<open>all_htf_names\<close> is
  \<open>list(all_htf_names)\<close> of the source, the set of the names of both columns in the
  order Python happens to iterate it. The result is the output frame, the fetches made,
  and the world. Reading and writing the CSV files is outside the model.
\<close>

definition main_query ::
  "'w http \<Rightarrow> string list \<Rightarrow> pair_row list \<Rightarrow> 'w \<Rightarrow>
   row list \<times> (string \<times> string option) list \<times> 'w" where
  "main_query requests_get all_htf_names df_input w =
     (case fetch_all requests_get all_htf_names (Map.empty, [], w) of
        (sequence_map, calls, w') \<Rightarrow>
          (map (\<lambda>p. \<lparr>hTF1 = PStr (in_hTF1 p),
                      Sequence_hTF1 = map_fillna sequence_map (in_hTF1 p),
                      hTF2 = PStr (in_hTF2 p),
                      Sequence_hTF2 = map_fillna sequence_map (in_hTF2 p),
                      similarity = in_similarity p\<rparr>) df_input,
           calls, w'))"

section \<open>Auxiliary definitions\<close>

text \<open>The invariant of the pool: the buffer has one slot per record, and a slot either
  holds the result of its record or its index is still queued.\<close>

definition pool_inv :: "('a \<Rightarrow> 'b) \<Rightarrow> 'a list \<Rightarrow> nat list list \<times> 'b option list \<Rightarrow> bool" where
  "pool_inv f xs st =
     (case st of (qs, buf) \<Rightarrow>
        length buf = length xs \<and>
        (\<forall>i<length xs. buf ! i = Some (f (xs ! i)) \<or> i \<in> set (concat qs)))"

text \<open>Example data: a matrix scoring 1 for identical symbols and 0 otherwise, two records,
  and two stand-ins for the alignment library (one reporting an alignment of length 0,
  one raising on every call).\<close>

definition identity_matrix :: "char \<Rightarrow> char \<Rightarrow> int" where
  "identity_matrix a b = (if a = b then 1 else 0)"

definition row_same :: row where
  "row_same = \<lparr>hTF1 = PStr ''TF_A'', Sequence_hTF1 = PStr ''MKV'',
               hTF2 = PStr ''TF_B'', Sequence_hTF2 = PStr ''MKV'', similarity = PFloat 0.5\<rparr>"

definition row_absent :: row where
  "row_absent = \<lparr>hTF1 = PStr ''TF_C'', Sequence_hTF1 = PStr ''NOT_FOUND'',
                 hTF2 = PStr ''TF_D'', Sequence_hTF2 = PStr ''MKV'', similarity = PFloat 0.25\<rparr>"

definition zero_length_kernel :: "unit kernel" where
  "zero_length_kernel s1 s2 go ge m = Inr (Some \<lparr>length_stat = Some 0, matches = 0\<rparr>)"

definition failing_kernel :: "unit kernel" where
  "failing_kernel s1 s2 go ge m = Inl RuntimeError"

text \<open>The score of aligning a sequence with itself column by column.\<close>

definition self_score :: "scheme \<Rightarrow> string \<Rightarrow> int" where
  "self_score sch xs = sum_list (map (\<lambda>a. matrix sch a a) xs)"

text \<open>Modelled from the spec: the percent identity of an outcome of \<open>Align\<close>; the caller
  turns a failure of the kernel into not-a-number.\<close>

definition alignment_percent :: "error + stats \<Rightarrow> pyval" where
  "alignment_percent res = (case res of Inl e \<Rightarrow> PNaN | Inr st \<Rightarrow> percent_identity st)"

text \<open>An example scheme: the identity matrix with the gap penalties of the source.\<close>

definition identity_scheme :: scheme where
  "identity_scheme = \<lparr>matrix = identity_matrix, gap_open = 10, gap_extend = 1\<rparr>"


definition row_empty :: row where
  "row_empty = \<lparr>hTF1 = PStr ''TF_F'', Sequence_hTF1 = PStr [],
                hTF2 = PStr ''TF_G'', Sequence_hTF2 = PStr [], similarity = PFloat 0.125\<rparr>"

text \<open>Example data of the query stage: a network that knows one protein, and answers it
  on the first request only; two rows naming the same two proteins.\<close>

definition example_http :: "nat http" where
  "example_http q w =
     (if q = ''HOXB8 AND (taxonomy_id:9606) AND (reviewed:true)'' \<and> w = 0
      then Results [Some ''MKV''] else Results [], Suc w)"

definition example_pairs :: "pair_row list" where
  "example_pairs =
     [\<lparr>in_hTF1 = ''HOXB8'', in_hTF2 = ''FOO'', in_similarity = PFloat 0.5\<rparr>,
      \<lparr>in_hTF1 = ''FOO'', in_hTF2 = ''HOXB8'', in_similarity = PFloat 0.25\<rparr>]"

section \<open>Lemmas: the per-pair function\<close>

lemma calc_short:
  "\<not> passes_filter r \<Longrightarrow>
   calculate_similarity_for_pair K M r = ([hTF1 r, hTF2 r, PNaN], [])"
  unfolding calculate_similarity_for_pair_def passes_filter_def valid_seq_def Let_def
  by auto

lemma calc_full:
  "passes_filter r \<Longrightarrow>
   calculate_similarity_for_pair K M r =
     ([hTF1 r, hTF2 r, Sequence_hTF1 r, Sequence_hTF2 r,
       (case K (the_str (Sequence_hTF1 r)) (the_str (Sequence_hTF2 r))
               GAP_OPEN_PENALTY GAP_EXTEND_PENALTY M of
          Inl e \<Rightarrow> PNaN | Inr a \<Rightarrow> percent_of a),
       similarity r], [(the_str (Sequence_hTF1 r), the_str (Sequence_hTF2 r))])"
  unfolding calculate_similarity_for_pair_def passes_filter_def valid_seq_def Let_def
  by simp

lemma fold_write_length:
  "length (fold (\<lambda>i b. b[i := g i]) is buf) = length buf"
  by (induction "is" arbitrary: buf) simp_all

lemma fold_write_nth:
  "j < length buf \<Longrightarrow>
   fold (\<lambda>i b. b[i := g i]) is buf ! j = (if j \<in> set is then g j else buf ! j)"
proof (induction "is" arbitrary: buf)
  case Nil
  then show ?case by simp
next
  case (Cons i "is")
  have "j < length (buf[i := g i])" using Cons.prems by simp
  from Cons.IH [OF this] Cons.prems show ?case
    by (auto simp: nth_list_update)
qed

lemma pool_inv_init:
  assumes "0 < N"
  shows "pool_inv f xs (partition_tasks N assign (length xs), replicate (length xs) None)"
proof -
  have "i \<in> set (concat (partition_tasks N assign (length xs)))" if "i < length xs" for i
  proof -
    have "assign i mod N < N" using assms by simp
    then show ?thesis using that
      unfolding partition_tasks_def by auto
  qed
  then show ?thesis by (simp add: pool_inv_def)
qed

lemma in_concat_update:
  assumes "w < length qs" "qs ! w = i # rest" "j \<in> set (concat qs)" "j \<noteq> i"
  shows "j \<in> set (concat (qs[w := rest]))"
proof -
  from assms(3) obtain q where q: "q \<in> set qs" "j \<in> set q" by auto
  then obtain k where k: "k < length qs" "qs ! k = q" by (auto simp: in_set_conv_nth)
  show ?thesis
  proof (cases "k = w")
    case True
    then have "j \<in> set rest" using q k assms by auto
    moreover have "rest \<in> set (qs[w := rest])" using assms(1) by (simp add: set_update_memI)
    ultimately show ?thesis by auto
  next
    case False
    then have "(qs[w := rest]) ! k = q" using k by simp
    then have "q \<in> set (qs[w := rest])" using k by (metis length_list_update nth_mem)
    then show ?thesis using q by auto
  qed
qed

lemma pool_inv_step:
  assumes "pool_inv f xs st"
  shows "pool_inv f xs (complete_next f xs w st)"
proof (cases st)
  case (Pair qs buf)
  show ?thesis
  proof (cases "w < length qs")
    case False
    then show ?thesis using assms Pair by (simp add: complete_next_def)
  next
    case True
    show ?thesis
    proof (cases "qs ! w")
      case Nil
      then show ?thesis using assms Pair True by (simp add: complete_next_def)
    next
      case (Cons i rest)
      have step: "complete_next f xs w st = (qs[w := rest], buf[i := Some (f (xs ! i))])"
        using Pair True Cons by (simp add: complete_next_def)
      have len: "length buf = length xs"
        and cov: "\<And>j. j < length xs \<Longrightarrow> buf ! j = Some (f (xs ! j)) \<or> j \<in> set (concat qs)"
        using assms Pair by (auto simp: pool_inv_def)
      have "buf[i := Some (f (xs ! i))] ! j = Some (f (xs ! j)) \<or> j \<in> set (concat (qs[w := rest]))"
        if "j < length xs" for j
      proof (cases "j = i")
        case True
        then show ?thesis using that len by simp
      next
        case False
        with cov [OF that] in_concat_update [OF True Cons] show ?thesis by auto
      qed
      then show ?thesis using len by (simp add: step pool_inv_def)
    qed
  qed
qed

lemma pool_inv_fold:
  "pool_inv f xs st \<Longrightarrow> pool_inv f xs (fold (complete_next f xs) sched st)"
  by (induction sched arbitrary: st) (simp_all add: pool_inv_step)

lemma join_all_complete:
  assumes "pool_inv f xs st"
  shows "join_all f xs st = map (\<lambda>x. Some (f x)) xs"
proof (cases st)
  case (Pair qs buf)
  have len: "length buf = length xs"
    and cov: "\<And>j. j < length xs \<Longrightarrow> buf ! j = Some (f (xs ! j)) \<or> j \<in> set (concat qs)"
    using assms Pair by (auto simp: pool_inv_def)
  show ?thesis
  proof (rule nth_equalityI)
    show "length (join_all f xs st) = length (map (\<lambda>x. Some (f x)) xs)"
      using Pair len by (simp add: join_all_def fold_write_length)
  next
    fix j assume "j < length (join_all f xs st)"
    then have j: "j < length xs" using Pair len by (simp add: join_all_def fold_write_length)
    then have "j < length buf" using len by simp
    from fold_write_nth [OF this, of "\<lambda>i. Some (f (xs ! i))" "concat qs"] cov [OF j] j
    show "join_all f xs st ! j = map (\<lambda>x. Some (f x)) xs ! j"
      using Pair by (auto simp: join_all_def)
  qed
qed

lemma collect_Some: "collect (map (\<lambda>x. Some (f x)) xs) = Some (map f xs)"
  by (simp add: collect_def list_all_iff comp_def)

lemma Pool_imap_map:
  "0 < N \<Longrightarrow> Pool_imap N assign sched f xs = Some (map f xs)"
  unfolding Pool_imap_def
  by (simp add: join_all_complete [OF pool_inv_fold [OF pool_inv_init]] collect_Some)

lemma length_calc:
  "length (fst (calculate_similarity_for_pair K M r)) = (if passes_filter r then 6 else 3)"
  by (simp add: calc_short calc_full)

lemma max_len_le:
  "(\<And>t. t \<in> set ts \<Longrightarrow> length t \<le> k) \<Longrightarrow> max_len ts \<le> k"
  by (induction ts) auto

lemma max_len_ge: "t \<in> set ts \<Longrightarrow> length t \<le> max_len ts"
  by (induction ts) auto

lemma max_len_results_some:
  assumes "r \<in> set rs" "passes_filter r"
  shows "max_len (map (\<lambda>r. fst (calculate_similarity_for_pair K M r)) rs) = 6"
proof -
  let ?ts = "map (\<lambda>r. fst (calculate_similarity_for_pair K M r)) rs"
  have "max_len ?ts \<le> 6"
    by (rule max_len_le) (auto simp: length_calc)
  moreover have "fst (calculate_similarity_for_pair K M r) \<in> set ?ts" using assms(1) by simp
  from max_len_ge [OF this] have "6 \<le> max_len ?ts" using assms(2) by (simp add: length_calc)
  ultimately show ?thesis by simp
qed

lemma max_len_results_none:
  assumes "rs \<noteq> []" "\<And>r. r \<in> set rs \<Longrightarrow> \<not> passes_filter r"
  shows "max_len (map (\<lambda>r. fst (calculate_similarity_for_pair K M r)) rs) = 3"
proof -
  let ?ts = "map (\<lambda>r. fst (calculate_similarity_for_pair K M r)) rs"
  have "max_len ?ts \<le> 3"
    by (rule max_len_le) (auto simp: length_calc assms(2))
  moreover obtain r where r: "r \<in> set rs" using assms(1) by (cases rs) auto
  then have "fst (calculate_similarity_for_pair K M r) \<in> set ?ts" by simp
  from max_len_ge [OF this] have "3 \<le> max_len ?ts" using assms(2) r by (simp add: length_calc)
  ultimately show ?thesis by simp
qed

lemma length_columns: "length columns = 6"
  by (simp add: columns_def)

lemma main_eq:
  "1 \<le> N \<Longrightarrow>
   main K M N assign sched rs =
     DataFrame (map (\<lambda>r. fst (calculate_similarity_for_pair K M r)) rs) columns"
  by (simp add: main_def Pool_imap_map)

lemma main_some:
  assumes "1 \<le> N" "r \<in> set rs" "passes_filter r"
  shows "main K M N assign sched rs =
           Inr (map (\<lambda>r. pad_row 6 (fst (calculate_similarity_for_pair K M r))) rs)"
proof -
  have "rs \<noteq> []" using assms(2) by auto
  then show ?thesis
    using max_len_results_some [OF assms(2,3), of K M]
    by (simp add: main_eq [OF assms(1)] DataFrame_def length_columns comp_def)
qed

lemma pad_row_full: "passes_filter r \<Longrightarrow>
  pad_row 6 (fst (calculate_similarity_for_pair K M r)) = fst (calculate_similarity_for_pair K M r)"
  by (simp add: pad_row_def calc_full)

lemma pad_row_short: "\<not> passes_filter r \<Longrightarrow>
  pad_row 6 (fst (calculate_similarity_for_pair K M r)) = [hTF1 r, hTF2 r, PNaN, PNone, PNaN, PNaN]"
  by (simp add: pad_row_def calc_short missing_cell_def columns_def upt_rec)

lemma pad_row_ids:
  "pad_row 6 (fst (calculate_similarity_for_pair K M r)) ! 0 = hTF1 r \<and>
   pad_row 6 (fst (calculate_similarity_for_pair K M r)) ! 1 = hTF2 r"
  by (cases "passes_filter r") (simp_all add: pad_row_def calc_short calc_full nth_append)

lemma pad_row_ids':
  "pad_row 6 (fst (calculate_similarity_for_pair K M r)) ! 0 = hTF1 r \<and>
   pad_row 6 (fst (calculate_similarity_for_pair K M r)) ! Suc 0 = hTF2 r"
  using pad_row_ids [of K M r] by simp

lemma passes_row_same: "passes_filter row_same"
  by (simp add: passes_filter_def valid_seq_def row_same_def)

lemma not_passes_row_absent: "\<not> passes_filter row_absent"
  by (simp add: passes_filter_def valid_seq_def row_absent_def)

text \<open>A batch with at least one record that passes the filter, or an empty batch, gives a
  frame with one row per record in the input's order, for any worker count of at least 1,
  any assignment and any completion order.\<close>

lemma main_one_row_per_record:
  assumes "1 \<le> N" and "rs = [] \<or> (\<exists>r\<in>set rs. passes_filter r)"
  shows "\<exists>out. main K M N assign sched rs = Inr out \<and> length out = length rs \<and>
           (\<forall>i<length rs. out ! i ! 0 = hTF1 (rs ! i) \<and> out ! i ! 1 = hTF2 (rs ! i))"
proof (cases "rs = []")
  case True
  then show ?thesis using assms(1) by (simp add: main_eq DataFrame_def)
next
  case False
  then obtain r where "r \<in> set rs" "passes_filter r" using assms(2) by auto
  from main_some [where K = K and M = M and assign = assign and sched = sched, OF assms(1) this]
  show ?thesis
    by (simp add: pad_row_ids')
qed

section \<open>Lemmas: the alignment kernel\<close>

lemma fst_add_col: "fst (add_col c m st) = fst st + c"
  by (cases st) (simp add: add_col_def)

lemma fst_better: "fst (better a b) = max (fst a) (fst b)"
  by (simp add: better_def max_def)

lemma self_score_Cons: "self_score sch (x # xs) = matrix sch x x + self_score sch xs"
  by (simp add: self_score_def)

lemma self_score_Nil: "self_score sch [] = 0"
  by (simp add: self_score_def)

lemma gap_cost_ge: "gap_extend sch \<le> gap_open sch \<Longrightarrow> gap_extend sch \<le> gap_cost sch p m"
  by (simp add: gap_cost_def)

lemma gap_col_bound:
  assumes "identity_favoring sch"
  shows "- 2 * gap_cost sch p m < matrix sch a a"
proof -
  have "gap_extend sch \<le> gap_cost sch p m"
    using assms by (simp add: identity_favoring_def gap_cost_ge)
  moreover have "- 2 * gap_extend sch < matrix sch a a"
    using assms by (simp add: identity_favoring_def)
  ultimately show ?thesis by linarith
qed

lemma sub_col_bound:
  "identity_favoring sch \<Longrightarrow> 2 * matrix sch a b \<le> matrix sch a a + matrix sch b b"
  by (simp add: identity_favoring_def)

lemma nw_upper:
  "identity_favoring sch \<Longrightarrow>
   2 * fst (nw tb sch p xs ys) \<le> self_score sch xs + self_score sch ys"
proof (induction tb sch p xs ys rule: nw.induct)
  case (1 tb sch p)
  show ?case by (simp add: self_score_Nil)
next
  case (2 tb sch p x xs)
  from 2 gap_col_bound [OF 2(2), of p GapInB x]
  show ?case by (simp add: fst_add_col self_score_Cons)
next
  case (3 tb sch p y ys)
  from 3 gap_col_bound [OF 3(2), of p GapInA y]
  show ?case by (simp add: fst_add_col self_score_Cons)
next
  case (4 tb sch p x xs y ys)
  note fav = "4.prems"
  let ?d = "add_col (matrix sch x y) (if x = y then 1 else 0) (nw tb sch Diag xs ys)"
  let ?ga = "add_col (- gap_cost sch p GapInA) 0 (nw tb sch GapInA (x # xs) ys)"
  let ?gb = "add_col (- gap_cost sch p GapInB) 0 (nw tb sch GapInB xs (y # ys))"
  let ?B = "self_score sch (x # xs) + self_score sch (y # ys)"
  have d: "2 * fst ?d \<le> ?B"
    using "4.IH"(1) [OF fav] sub_col_bound [OF fav, of x y]
    by (simp add: fst_add_col self_score_Cons)
  have ga: "2 * fst ?ga \<le> ?B"
    using "4.IH"(2) [OF refl fav] gap_col_bound [OF fav, of p GapInA y]
    by (simp add: fst_add_col self_score_Cons)
  have gb: "2 * fst ?gb \<le> ?B"
    using "4.IH"(3) [OF refl refl fav] gap_col_bound [OF fav, of p GapInB x]
    by (simp add: fst_add_col self_score_Cons)
  have "fst (nw tb sch p (x # xs) (y # ys)) = max (max (fst ?d) (fst ?ga)) (fst ?gb)"
    by (simp add: Let_def fst_better max.commute max.left_commute)
  with d ga gb show ?case by (simp add: max_def)
qed

lemma better_keep: "fst b \<le> fst a \<Longrightarrow> better a b = a"
  by (simp add: better_def)

lemma nw_self:
  "identity_favoring sch \<Longrightarrow> nw tb sch p xs xs = (self_score sch xs, length xs, length xs)"
proof (induction xs arbitrary: p)
  case Nil
  show ?case by (simp add: self_score_Nil)
next
  case (Cons x xs)
  note fav = Cons.prems
  let ?d = "add_col (matrix sch x x) (if x = x then 1 else 0) (nw tb sch Diag xs xs)"
  let ?ga = "add_col (- gap_cost sch p GapInA) 0 (nw tb sch GapInA (x # xs) xs)"
  let ?gb = "add_col (- gap_cost sch p GapInB) 0 (nw tb sch GapInB xs (x # xs))"
  have d: "?d = (self_score sch (x # xs), length (x # xs), length (x # xs))"
    by (simp add: Cons.IH [OF fav] add_col_def self_score_Cons)
  have ga: "fst ?ga \<le> fst ?d"
    using nw_upper [OF fav, of tb GapInA "x # xs" xs] gap_col_bound [OF fav, of p GapInA x]
    by (simp add: fst_add_col Cons.IH [OF fav] self_score_Cons)
  have gb: "fst ?gb \<le> fst ?d"
    using nw_upper [OF fav, of tb GapInB xs "x # xs"] gap_col_bound [OF fav, of p GapInB x]
    by (simp add: fst_add_col Cons.IH [OF fav] self_score_Cons)
  have "nw tb sch p (x # xs) (x # xs) = ?d"
    using ga gb by (cases tb) (simp_all add: Let_def better_keep)
  with d show ?case by simp
qed

lemma nw_matches_le_length:
  "fst (snd (nw tb sch p xs ys)) \<le> snd (snd (nw tb sch p xs ys))"
proof (induction tb sch p xs ys rule: nw.induct)
  case (4 tb sch p x xs y ys)
  from "4.IH"(1) "4.IH"(2) [OF refl] "4.IH"(3) [OF refl refl]
  show ?case
    by (auto simp: Let_def better_def add_col_def split: prod.splits)
qed (auto simp: add_col_def split: prod.splits)

lemma nw_length_pos:
  "xs \<noteq> [] \<or> ys \<noteq> [] \<Longrightarrow> 0 < snd (snd (nw tb sch p xs ys))"
proof (induction tb sch p xs ys rule: nw.induct)
  case (4 tb sch p x xs y ys)
  show ?case
    by (auto simp: Let_def better_def add_col_def split: prod.splits)
qed (auto simp: add_col_def split: prod.splits)

lemma identity_favoring_identity_scheme: "identity_favoring identity_scheme"
  by (simp add: identity_favoring_def identity_scheme_def identity_matrix_def)

lemma nw_length_ge:
  "length xs \<le> snd (snd (nw tb sch p xs ys)) \<and> length ys \<le> snd (snd (nw tb sch p xs ys))"
proof (induction tb sch p xs ys rule: nw.induct)
  case (4 tb sch p x xs y ys)
  from "4.IH"(1) "4.IH"(2) [OF refl] "4.IH"(3) [OF refl refl]
  show ?case
    by (auto simp: Let_def better_def add_col_def split: prod.splits)
qed (auto simp: add_col_def split: prod.splits)

lemma nw_length_zero_iff:
  "snd (snd (nw tb sch p xs ys)) = 0 \<longleftrightarrow> xs = [] \<and> ys = []"
proof
  assume "snd (snd (nw tb sch p xs ys)) = 0"
  with nw_length_ge [of xs tb sch p ys] show "xs = [] \<and> ys = []" by simp
next
  assume "xs = [] \<and> ys = []"
  then show "snd (snd (nw tb sch p xs ys)) = 0" by simp
qed





lemma spec_kernel_counts:
  assumes "spec_kernel tb s1 s2 go ge m = Inr (Some res)" and "length_stat res = Some l"
  shows "0 \<le> matches res \<and> matches res \<le> l"
proof -
  let ?sch = "\<lparr>matrix = m, gap_open = go, gap_extend = ge\<rparr>"
  obtain s mt n where st: "nw tb ?sch Diag s1 s2 = (s, mt, n)"
    by (cases "nw tb ?sch Diag s1 s2") auto
  have "mt \<le> n" using nw_matches_le_length [of tb ?sch Diag s1 s2] st by simp
  moreover have "res = \<lparr>length_stat = Some (int n), matches = int mt\<rparr>"
    using assms(1) st by (auto simp: spec_kernel_def Align_def split: if_splits)
  ultimately show ?thesis using assms(2) by auto
qed


text \<open>The kernel modelled from the spec, run by the per-pair function on a record whose two
  sequences are both MKV, with the gap penalties of the source.\<close>

lemma identity_favoring_source_penalties:
  "identity_favoring \<lparr>matrix = identity_matrix, gap_open = GAP_OPEN_PENALTY,
                       gap_extend = GAP_EXTEND_PENALTY\<rparr>"
  by (simp add: identity_favoring_def identity_matrix_def GAP_OPEN_PENALTY_def
      GAP_EXTEND_PENALTY_def)

lemma calc_row_same_spec_kernel:
  "calculate_similarity_for_pair (spec_kernel tb) identity_matrix row_same =
     ([PStr ''TF_A'', PStr ''TF_B'', PStr ''MKV'', PStr ''MKV'', PFloat 100, PFloat 0.5],
      [(''MKV'', ''MKV'')])"
proof -
  have "spec_kernel tb ''MKV'' ''MKV'' GAP_OPEN_PENALTY GAP_EXTEND_PENALTY identity_matrix =
          Inr (Some \<lparr>length_stat = Some 3, matches = 3\<rparr>)"
    by (simp add: spec_kernel_def Align_def nw_self [OF identity_favoring_source_penalties]
        self_score_def identity_matrix_def del: nw.simps)
  then show ?thesis
    unfolding calc_full [OF passes_row_same]
    by (simp add: percent_of_def row_same_def)
qed

section \<open>Lemmas: the sequence-query stage\<close>

lemma fetch_all_inv:
  assumes "fetch_all http ns (m, calls, w) = (m', calls', w')"
    and "distinct (map fst calls)"
    and "\<forall>n v. (m n = Some v) = ((n, v) \<in> set calls)"
  shows "distinct (map fst calls') \<and> (\<forall>n v. (m' n = Some v) = ((n, v) \<in> set calls')) \<and>
         fst ` set calls' = fst ` set calls \<union> set ns"
  using assms
proof (induction ns arbitrary: m calls w)
  case Nil
  then show ?case by simp
next
  case (Cons n ns)
  show ?case
  proof (cases "m n = None")
    case False
    then obtain v where "m n = Some v" by auto
    then have "n \<in> fst ` set calls" using Cons.prems(3) by force
    moreover have "fetch_all http ns (m, calls, w) = (m', calls', w')"
      using Cons.prems(1) False by simp
    from Cons.IH [OF this Cons.prems(2,3)] have
      "distinct (map fst calls') \<and> (\<forall>n v. (m' n = Some v) = ((n, v) \<in> set calls')) \<and>
       fst ` set calls' = fst ` set calls \<union> set ns" .
    ultimately show ?thesis by auto
  next
    case True
    obtain s w1 where f: "fetch_sequence_from_protein_name http n w = (s, w1)"
      by (cases "fetch_sequence_from_protein_name http n w") auto
    have notin: "n \<notin> fst ` set calls"
    proof
      assume "n \<in> fst ` set calls"
      then obtain v where "(n, v) \<in> set calls" by auto
      then have "m n = Some v" using Cons.prems(3) by simp
      then show False using True by simp
    qed
    have run: "fetch_all http ns (m(n \<mapsto> s), calls @ [(n, s)], w1) = (m', calls', w')"
      using Cons.prems(1) True f by simp
    have d: "distinct (map fst (calls @ [(n, s)]))"
      using Cons.prems(2) notin by simp
    have t: "\<forall>k v. ((m(n \<mapsto> s)) k = Some v) = ((k, v) \<in> set (calls @ [(n, s)]))"
      using Cons.prems(3) notin by (auto simp: image_iff)
    from Cons.IH [OF run d t] show ?thesis by auto
  qed
qed

lemma fetch_all_table:
  assumes "fetch_all http ns (Map.empty, [], w) = (m, calls, w')"
  shows "distinct (map fst calls) \<and> (\<forall>n v. (m n = Some v) = ((n, v) \<in> set calls)) \<and>
         fst ` set calls = set ns"
  using fetch_all_inv [OF assms] by simp

lemma map_fillna_absent: "m n = Some None \<Longrightarrow> map_fillna m n = PStr ''NOT_FOUND''"
  by (simp add: map_fillna_def)

lemma example_run:
  "main_query example_http [''HOXB8'', ''FOO''] example_pairs 0 =
     ([\<lparr>hTF1 = PStr ''HOXB8'', Sequence_hTF1 = PStr ''MKV'',
        hTF2 = PStr ''FOO'', Sequence_hTF2 = PStr ''NOT_FOUND'', similarity = PFloat 0.5\<rparr>,
       \<lparr>hTF1 = PStr ''FOO'', Sequence_hTF1 = PStr ''NOT_FOUND'',
        hTF2 = PStr ''HOXB8'', Sequence_hTF2 = PStr ''MKV'', similarity = PFloat 0.25\<rparr>],
      [(''HOXB8'', Some ''MKV''), (''FOO'', None)], 2)"
  by (simp add: main_query_def fetch_sequence_from_protein_name_def example_http_def
      example_pairs_def map_fillna_def)

section \<open>The claims\<close>

text \<open>
  C5. For every record where sequence A or sequence B is the absent sentinel
  \<open>NOT_FOUND\<close>, is empty, or is not a string, the per-record computation returns
  not-a-number as percent identity and makes no call to the alignment kernel (the list
  of kernel calls is empty); in particular an empty sequence on either side never yields
  a defined percent identity.
\<close>

theorem C5_short_circuit:
  assumes "Sequence_hTF1 r = PStr ''NOT_FOUND'' \<or> Sequence_hTF2 r = PStr ''NOT_FOUND'' \<or>
           Sequence_hTF1 r = PStr [] \<or> Sequence_hTF2 r = PStr [] \<or>
           \<not> isinstance_str (Sequence_hTF1 r) \<or> \<not> isinstance_str (Sequence_hTF2 r)"
  shows "calculate_similarity_for_pair K M r = ([hTF1 r, hTF2 r, PNaN], [])"
proof -
  have "\<not> passes_filter r"
    using assms by (auto simp: passes_filter_def valid_seq_def)
  then show ?thesis by (rule calc_short)
qed

theorem C5_short_circuit_witness:
  "Sequence_hTF1 row_absent = PStr ''NOT_FOUND'' \<and>
   calculate_similarity_for_pair zero_length_kernel () row_absent =
     ([PStr ''TF_C'', PStr ''TF_D'', PNaN], [])"
  using C5_short_circuit [of row_absent zero_length_kernel "()"]
  by (simp add: row_absent_def)

text \<open>
  C1. The claim is that every output record passes identifiers, both sequences and the
  auxiliary similarity value through, also when a sequence is the absent sentinel. The
  early return of the source gives only the two identifiers and not-a-number: for the
  record \<open>row_absent\<close> the tuple has three components, its row of the output frame
  holds not-a-number and \<open>None\<close> in the place of the sequences and the similarity value,
  and a batch of such records alone does not give a frame at all.
\<close>

theorem C1_absent_row_loses_fields:
  "fst (calculate_similarity_for_pair K M row_absent) = [PStr ''TF_C'', PStr ''TF_D'', PNaN] \<and>
   main K M 1 assign sched [row_same, row_absent] =
     Inr [fst (calculate_similarity_for_pair K M row_same),
          [PStr ''TF_C'', PStr ''TF_D'', PNaN, PNone, PNaN, PNaN]] \<and>
   main K M 1 assign sched [row_absent] = Inl ValueError"
proof -
  have a: "\<not> passes_filter row_absent"
    by (simp add: passes_filter_def valid_seq_def row_absent_def)
  have s: "passes_filter row_same"
    by (simp add: passes_filter_def valid_seq_def row_same_def)
  have 1: "fst (calculate_similarity_for_pair K M row_absent) = [PStr ''TF_C'', PStr ''TF_D'', PNaN]"
    by (simp add: calc_short [OF a]) (simp add: row_absent_def)
  have 2: "main K M 1 assign sched [row_same, row_absent] =
     Inr [fst (calculate_similarity_for_pair K M row_same),
          [PStr ''TF_C'', PStr ''TF_D'', PNaN, PNone, PNaN, PNaN]]"
    using main_some [of 1 row_same "[row_same, row_absent]" K M assign sched] s
    by (simp add: pad_row_full [OF s] pad_row_short [OF a]) (simp add: row_absent_def)
  have 3: "main K M 1 assign sched [row_absent] = Inl ValueError"
    using max_len_results_none [of "[row_absent]" K M] a
    by (simp add: main_eq DataFrame_def length_columns)
  from 1 2 3 show ?thesis by simp
qed

theorem C1_absent_row_loses_fields_witness:
  "fst (calculate_similarity_for_pair zero_length_kernel () row_absent) =
     [PStr ''TF_C'', PStr ''TF_D'', PNaN] \<and>
   Sequence_hTF2 row_absent = PStr ''MKV'' \<and> similarity row_absent = PFloat 0.25 \<and>
   main zero_length_kernel () 1 id [] [row_absent] = Inl ValueError"
  using C1_absent_row_loses_fields [of zero_length_kernel "()" id "[]"]
  by (simp add: row_absent_def)



text \<open>
  C3. The claim is that the batch gives exactly one output record per input record, in
  the input's order, for every input list. For a batch in which no record passes the
  validity filter (every pair has an absent, empty or non-string sequence), every tuple
  collected has three components, and the construction of the frame with six column
  names raises: the batch ends without any output record, for every worker count of at
  least 1, every assignment and every completion order.
\<close>

theorem C3_batch_of_short_tuples_raises:
  assumes "1 \<le> N" and "rs \<noteq> []" and "\<forall>r\<in>set rs. \<not> passes_filter r"
  shows "main K M N assign sched rs = Inl ValueError"
proof -
  have "max_len (map (\<lambda>r. fst (calculate_similarity_for_pair K M r)) rs) = 3"
    using assms(2,3) by (intro max_len_results_none) simp_all
  then show ?thesis
    using assms(1,2) by (simp add: main_eq DataFrame_def length_columns)
qed

theorem C3_batch_of_short_tuples_raises_witness:
  "main failing_kernel () 3 id [2, 0] [row_absent, row_empty] = Inl ValueError"
proof -
  have "\<forall>r\<in>set [row_absent, row_empty]. \<not> passes_filter r"
    by (simp add: not_passes_row_absent) (simp add: passes_filter_def valid_seq_def row_empty_def)
  with C3_batch_of_short_tuples_raises [of 3 "[row_absent, row_empty]" failing_kernel "()" id
      "[2, 0]"]
  show ?thesis by simp
qed

text \<open>
  C4. For every record whose two sequences pass the validity filter, a failure raised
  inside the alignment computation stays with that record: its percent identity is
  not-a-number, the batch still gives one row per record, and every other row is the
  result of its own record.
\<close>

theorem C4_kernel_failure_contained:
  assumes "1 \<le> N" and "i < length rs" and "passes_filter (rs ! i)"
    and "K (the_str (Sequence_hTF1 (rs ! i))) (the_str (Sequence_hTF2 (rs ! i)))
           GAP_OPEN_PENALTY GAP_EXTEND_PENALTY M = Inl e"
  shows "\<exists>out. main K M N assign sched rs = Inr out \<and> length out = length rs \<and>
           out ! i = [hTF1 (rs ! i), hTF2 (rs ! i), Sequence_hTF1 (rs ! i),
                      Sequence_hTF2 (rs ! i), PNaN, similarity (rs ! i)] \<and>
           (\<forall>j<length rs. out ! j = pad_row 6 (fst (calculate_similarity_for_pair K M (rs ! j))))"
proof -
  have "rs ! i \<in> set rs" using assms(2) by simp
  from main_some [where K = K and M = M and assign = assign and sched = sched,
      OF assms(1) this assms(3)] assms(2,4)
  show ?thesis
    by (simp add: pad_row_def calc_full [OF assms(3)])
qed

theorem C4_kernel_failure_contained_witness:
  "\<exists>out. main failing_kernel () 2 id [1, 0] [row_same, row_absent, row_same] = Inr out \<and>
         length out = 3 \<and>
         out ! 0 = [PStr ''TF_A'', PStr ''TF_B'', PStr ''MKV'', PStr ''MKV'', PNaN, PFloat 0.5] \<and>
         out ! 1 = [PStr ''TF_C'', PStr ''TF_D'', PNaN, PNone, PNaN, PNaN]"
proof -
  let ?rs = "[row_same, row_absent, row_same]"
  have "\<exists>out. main failing_kernel () 2 id [1, 0] ?rs = Inr out \<and> length out = length ?rs \<and>
           out ! 0 = [hTF1 (?rs ! 0), hTF2 (?rs ! 0), Sequence_hTF1 (?rs ! 0),
                      Sequence_hTF2 (?rs ! 0), PNaN, similarity (?rs ! 0)] \<and>
           (\<forall>j<length ?rs. out ! j =
              pad_row 6 (fst (calculate_similarity_for_pair failing_kernel () (?rs ! j))))"
    by (rule C4_kernel_failure_contained [where e = RuntimeError])
       (simp_all add: passes_row_same failing_kernel_def)
  then obtain out where
    o: "main failing_kernel () 2 id [1, 0] ?rs = Inr out" "length out = length ?rs"
       "out ! 0 = [hTF1 (?rs ! 0), hTF2 (?rs ! 0), Sequence_hTF1 (?rs ! 0),
                      Sequence_hTF2 (?rs ! 0), PNaN, similarity (?rs ! 0)]"
       "\<forall>j<length ?rs. out ! j =
              pad_row 6 (fst (calculate_similarity_for_pair failing_kernel () (?rs ! j)))"
    by blast
  from o(4) have "out ! 1 = pad_row 6 (fst (calculate_similarity_for_pair failing_kernel () row_absent))"
    by (auto dest: spec [of _ 1])
  then have "out ! 1 = [PStr ''TF_C'', PStr ''TF_D'', PNaN, PNone, PNaN, PNaN]"
    by (simp add: pad_row_short [OF not_passes_row_absent]) (simp add: row_absent_def)
  moreover from o(3) have
    "out ! 0 = [PStr ''TF_A'', PStr ''TF_B'', PStr ''MKV'', PStr ''MKV'', PNaN, PFloat 0.5]"
    by (simp add: row_same_def)
  ultimately show ?thesis using o(1,2) by simp
qed

text \<open>
  C6. For every input list and every worker count \<open>N > 1\<close>, the batch run with one worker
  and the batch run with \<open>N\<close> workers give the same outcome, row for row in the same
  order, whatever the assignments and completion orders of the two runs.
\<close>

theorem C6_worker_count_irrelevant:
  assumes "1 < N"
  shows "main K M 1 assign1 sched1 rs = main K M N assign sched rs"
  using assms by (simp add: main_eq)

theorem C6_worker_count_irrelevant_witness:
  "main zero_length_kernel () 1 id [] [row_same, row_absent, row_same] =
   main zero_length_kernel () 4 (\<lambda>i. 3 * i + 1) [3, 0, 3, 1] [row_same, row_absent, row_same]"
  using C6_worker_count_irrelevant [of 4 zero_length_kernel "()" id "[]"
      "[row_same, row_absent, row_same]" "\<lambda>i. 3 * i + 1" "[3, 0, 3, 1]"]
  by simp

text \<open>
  C7. For every non-empty sequence A and every scheme whose matrix favours identity (as
  the matrix of the source does with gap-open 10 and gap-extend 1), aligning A against
  itself gives aligned length \<open>|A|\<close>, \<open>|A|\<close> matches and percent identity 100, whatever
  the tie-break; so MKV aligned with MKV under gap-open 10 and gap-extend 1 has length 3,
  3 matches and percent identity 100.
\<close>

theorem C7_self_alignment:
  assumes "A \<noteq> []" and "identity_favoring sch"
  shows "Align tb sch A A = Inr (self_score sch A, length A, length A) \<and>
         alignment_percent (Align tb sch A A) = PFloat 100"
proof -
  have "Align tb sch A A = Inr (self_score sch A, length A, length A)"
    using assms by (simp add: Align_def nw_self)
  moreover have "percent_identity (self_score sch A, length A, length A) = PFloat 100"
    using assms(1) by (simp add: percent_identity_def)
  ultimately show ?thesis by (simp add: alignment_percent_def)
qed

theorem C7_self_alignment_witness:
  "Align True identity_scheme ''MKV'' ''MKV'' = Inr (3, 3, 3) \<and>
   alignment_percent (Align True identity_scheme ''MKV'' ''MKV'') = PFloat 100 \<and>
   gap_open identity_scheme = 10 \<and> gap_extend identity_scheme = 1"
proof -
  have "''MKV'' \<noteq> []" by simp
  note c = C7_self_alignment [OF this identity_favoring_identity_scheme, of True]
  have p: "alignment_percent (Align True identity_scheme ''MKV'' ''MKV'') = PFloat 100"
    using c by (rule conjunct2)
  have "Align True identity_scheme ''MKV'' ''MKV'' =
          Inr (self_score identity_scheme ''MKV'', length ''MKV'', length ''MKV'')"
    using c by (rule conjunct1)
  moreover have "self_score identity_scheme ''MKV'' = 3"
    by (simp add: self_score_def identity_scheme_def identity_matrix_def)
  moreover have "length ''MKV'' = 3" by simp
  ultimately have "Align True identity_scheme ''MKV'' ''MKV'' = Inr (3, 3, 3)"
    by (simp only:)
  with p show ?thesis by (simp add: identity_scheme_def)
qed

text \<open>
  C9. For every record, the percent identity of the tuple the per-pair function returns is
  not-a-number or a value in the closed interval from 0 to 100, given that every result
  of the alignment library with a positive length has \<open>0 \<le> matches \<le> length\<close>.
\<close>

theorem C9_percent_in_range:
  assumes "\<And>s1 s2 res l.
             K s1 s2 GAP_OPEN_PENALTY GAP_EXTEND_PENALTY M = Inr (Some res) \<Longrightarrow>
             length_stat res = Some l \<Longrightarrow> 0 < l \<Longrightarrow> 0 \<le> matches res \<and> matches res \<le> l"
  shows "fst (calculate_similarity_for_pair K M r) = [hTF1 r, hTF2 r, PNaN] \<or>
         (\<exists>p. fst (calculate_similarity_for_pair K M r) =
                 [hTF1 r, hTF2 r, Sequence_hTF1 r, Sequence_hTF2 r, p, similarity r] \<and>
              (p = PNaN \<or> (\<exists>x. p = PFloat x \<and> 0 \<le> x \<and> x \<le> 100)))"
proof (cases "passes_filter r")
  case False
  then show ?thesis by (simp add: calc_short)
next
  case True
  let ?k = "K (the_str (Sequence_hTF1 r)) (the_str (Sequence_hTF2 r))
              GAP_OPEN_PENALTY GAP_EXTEND_PENALTY M"
  let ?p = "case ?k of Inl e \<Rightarrow> PNaN | Inr a \<Rightarrow> percent_of a"
  have "?p = PNaN \<or> (\<exists>x. ?p = PFloat x \<and> 0 \<le> x \<and> x \<le> 100)"
  proof (cases ?k)
    case (Inl e)
    then show ?thesis by simp
  next
    case (Inr a)
    show ?thesis
    proof (cases a)
      case None
      then show ?thesis using Inr by (simp add: percent_of_def)
    next
      case (Some res)
      show ?thesis
      proof (cases "length_stat res")
        case None
        then show ?thesis using Inr Some by (simp add: percent_of_def)
      next
        case (Some l)
        show ?thesis
        proof (cases "0 < l")
          case False
          then show ?thesis using Inr \<open>a = Some res\<close> Some by (simp add: percent_of_def)
        next
          case True
          from assms [of _ _ res l] Inr \<open>a = Some res\<close> Some True
          have b: "0 \<le> matches res" "matches res \<le> l" by auto
          have "0 \<le> real_of_int (matches res) / real_of_int l * 100"
            using b True by simp
          moreover have "real_of_int (matches res) / real_of_int l * 100 \<le> 100"
            using b True by (simp add: divide_le_eq)
          ultimately show ?thesis
            using Inr \<open>a = Some res\<close> Some True by (simp add: percent_of_def)
        qed
      qed
    qed
  qed
  then show ?thesis using True by (simp add: calc_full)
qed

theorem C9_percent_in_range_witness:
  "fst (calculate_similarity_for_pair (spec_kernel True) identity_matrix row_same) =
     [hTF1 row_same, hTF2 row_same, PNaN] \<or>
   (\<exists>p. fst (calculate_similarity_for_pair (spec_kernel True) identity_matrix row_same) =
           [hTF1 row_same, hTF2 row_same, Sequence_hTF1 row_same, Sequence_hTF2 row_same, p,
            similarity row_same] \<and>
        (p = PNaN \<or> (\<exists>x. p = PFloat x \<and> 0 \<le> x \<and> x \<le> 100)))"
  by (rule C9_percent_in_range) (rule spec_kernel_counts)

text \<open>
  C10. In the sequence-query stage one name-to-sequence table is built before any row is
  mapped, with exactly one fetch per unique protein name; the output frame has one row per
  input row; two rows (or the two columns) mentioning the same name receive the same
  sequence value; and every name whose fetch returned no sequence appears in the sequence
  columns as the string \<open>NOT_FOUND\<close>, which is not the empty string.
\<close>

theorem C10_one_table_for_all_rows:
  assumes names: "set all_htf_names = in_hTF1 ` set df \<union> in_hTF2 ` set df"
    and run: "main_query http all_htf_names df w = (out, calls, w')"
  shows "length out = length df \<and>
         distinct (map fst calls) \<and> fst ` set calls = set all_htf_names \<and>
         (\<forall>i<length df. \<forall>j<length df.
            (in_hTF1 (df ! i) = in_hTF1 (df ! j) \<longrightarrow>
               Sequence_hTF1 (out ! i) = Sequence_hTF1 (out ! j)) \<and>
            (in_hTF1 (df ! i) = in_hTF2 (df ! j) \<longrightarrow>
               Sequence_hTF1 (out ! i) = Sequence_hTF2 (out ! j)) \<and>
            (in_hTF2 (df ! i) = in_hTF2 (df ! j) \<longrightarrow>
               Sequence_hTF2 (out ! i) = Sequence_hTF2 (out ! j))) \<and>
         (\<forall>i<length df.
            ((in_hTF1 (df ! i), None) \<in> set calls \<longrightarrow>
               Sequence_hTF1 (out ! i) = PStr ''NOT_FOUND'') \<and>
            ((in_hTF2 (df ! i), None) \<in> set calls \<longrightarrow>
               Sequence_hTF2 (out ! i) = PStr ''NOT_FOUND'')) \<and>
         PStr ''NOT_FOUND'' \<noteq> PStr []"
proof -
  obtain m c2 w2 where fa0: "fetch_all http all_htf_names (Map.empty, [], w) = (m, c2, w2)"
    by (cases "fetch_all http all_htf_names (Map.empty, [], w)" rule: prod_cases3)
  from run have eqs: "c2 = calls" "w2 = w'"
    and out: "out = map (\<lambda>p. \<lparr>hTF1 = PStr (in_hTF1 p),
                      Sequence_hTF1 = map_fillna m (in_hTF1 p),
                      hTF2 = PStr (in_hTF2 p),
                      Sequence_hTF2 = map_fillna m (in_hTF2 p),
                      similarity = in_similarity p\<rparr>) df"
    unfolding main_query_def fa0 by simp_all
  have fa: "fetch_all http all_htf_names (Map.empty, [], w) = (m, calls, w')"
    using fa0 eqs by simp
  note tab = fetch_all_table [OF fa]
  from tab have t1: "distinct (map fst calls)" by (rule conjunct1)
  from tab have t2: "\<forall>n v. (m n = Some v) = ((n, v) \<in> set calls)"
    by (rule conjunct1 [OF conjunct2])
  from tab have t3: "fst ` set calls = set all_htf_names"
    by (rule conjunct2 [OF conjunct2])
  have len: "length out = length df" by (simp add: out)
  have s1: "Sequence_hTF1 (out ! i) = map_fillna m (in_hTF1 (df ! i))" if "i < length df" for i
    using that by (simp add: out)
  have s2: "Sequence_hTF2 (out ! i) = map_fillna m (in_hTF2 (df ! i))" if "i < length df" for i
    using that by (simp add: out)
  have same: "\<forall>i<length df. \<forall>j<length df.
            (in_hTF1 (df ! i) = in_hTF1 (df ! j) \<longrightarrow>
               Sequence_hTF1 (out ! i) = Sequence_hTF1 (out ! j)) \<and>
            (in_hTF1 (df ! i) = in_hTF2 (df ! j) \<longrightarrow>
               Sequence_hTF1 (out ! i) = Sequence_hTF2 (out ! j)) \<and>
            (in_hTF2 (df ! i) = in_hTF2 (df ! j) \<longrightarrow>
               Sequence_hTF2 (out ! i) = Sequence_hTF2 (out ! j))"
    by (simp add: s1 s2)
  have absent: "map_fillna m n = PStr ''NOT_FOUND''" if "(n, None) \<in> set calls" for n
  proof -
    from that t2 have "m n = Some None" by simp
    then show ?thesis by (rule map_fillna_absent)
  qed
  have sent: "\<forall>i<length df.
            ((in_hTF1 (df ! i), None) \<in> set calls \<longrightarrow>
               Sequence_hTF1 (out ! i) = PStr ''NOT_FOUND'') \<and>
            ((in_hTF2 (df ! i), None) \<in> set calls \<longrightarrow>
               Sequence_hTF2 (out ! i) = PStr ''NOT_FOUND'')"
    by (simp add: s1 s2 absent)
  have ne: "PStr ''NOT_FOUND'' \<noteq> PStr []" by simp
  show ?thesis
    by (intro conjI) (rule len t1 t3 same sent ne)+
qed

theorem C10_one_table_for_all_rows_witness:
  "\<exists>out calls w'.
     main_query example_http [''HOXB8'', ''FOO''] example_pairs 0 = (out, calls, w') \<and>
     length out = 2 \<and> distinct (map fst calls) \<and> fst ` set calls = {''HOXB8'', ''FOO''} \<and>
     Sequence_hTF1 (out ! 0) = Sequence_hTF2 (out ! 1) \<and>
     (''FOO'', None) \<in> set calls \<and>
     Sequence_hTF2 (out ! 0) = PStr ''NOT_FOUND'' \<and>
     Sequence_hTF1 (out ! 1) = PStr ''NOT_FOUND''"
proof -
  obtain out calls w' where
    run: "main_query example_http [''HOXB8'', ''FOO''] example_pairs 0 = (out, calls, w')"
    by (cases "main_query example_http [''HOXB8'', ''FOO''] example_pairs 0" rule: prod_cases3)
  have calls: "calls = [(''HOXB8'', Some ''MKV''), (''FOO'', None)]"
    using run unfolding example_run by simp
  have names: "set [''HOXB8'', ''FOO''] = in_hTF1 ` set example_pairs \<union> in_hTF2 ` set example_pairs"
    by (auto simp: example_pairs_def)
  have df: "length example_pairs = 2"
    "in_hTF1 (example_pairs ! 0) = ''HOXB8''" "in_hTF2 (example_pairs ! 0) = ''FOO''"
    "in_hTF1 (example_pairs ! Suc 0) = ''FOO''" "in_hTF2 (example_pairs ! Suc 0) = ''HOXB8''"
    by (simp_all add: example_pairs_def)
  note c = C10_one_table_for_all_rows [OF names run]
  note c1 = c [THEN conjunct1]
  note c2 = c [THEN conjunct2, THEN conjunct1]
  note c3 = c [THEN conjunct2, THEN conjunct2, THEN conjunct1]
  note c4 = c [THEN conjunct2, THEN conjunct2, THEN conjunct2, THEN conjunct1]
  note c5 = c [THEN conjunct2, THEN conjunct2, THEN conjunct2, THEN conjunct2, THEN conjunct1]
  have len: "length out = 2" using c1 by (simp only: df)
  have dom: "fst ` set calls = {''HOXB8'', ''FOO''}" using c3 by simp
  have foo: "(''FOO'', None) \<in> set calls" by (simp add: calls)
  have i0: "0 < length example_pairs" and i1: "1 < length example_pairs"
    by (simp_all add: df)
  have a: "Sequence_hTF1 (out ! 0) = Sequence_hTF2 (out ! 1)"
    using c4 [rule_format, OF i0 i1] by (simp add: df)
  have b: "Sequence_hTF2 (out ! 0) = PStr ''NOT_FOUND''"
    using c5 [rule_format, OF i0] foo by (simp add: df)
  have e: "Sequence_hTF1 (out ! 1) = PStr ''NOT_FOUND''"
    using c5 [rule_format, OF i1] foo by (simp add: df)
  show ?thesis
    by (intro exI conjI) (rule run len c2 dom a foo b e)+
qed

end
